theory Spec2Isabelle
  imports Main "HOL-Library.Sublist"
begin

section \<open>Strings\<close>

text \<open>
  A Python \<open>str\<close> is a sequence of code points. The model is a \<open>char list\<close> whose
  characters stand for the code points below 256; \<open>str.lower\<close>, \<open>str.strip\<close> and the
  regular expressions of the catalog are modelled on that range.
\<close>

definition lower_char :: "char \<Rightarrow> char" where
  \<comment> \<open>\<open>A\<close>..\<open>Z\<close> and the Latin-1 capitals (U+00C0..U+00DE without U+00D7) move up by 32\<close>
  "lower_char c =
     (let n = (of_char c :: nat)
      in if (65 \<le> n \<and> n \<le> 90) \<or> (192 \<le> n \<and> n \<le> 222 \<and> n \<noteq> 215)
         then char_of (n + 32) else c)"

definition lower :: "string \<Rightarrow> string" where
  "lower s = map lower_char s"

definition is_space :: "char \<Rightarrow> bool" where
  \<comment> \<open>the characters \<open>str.strip()\<close> removes: U+0009..U+000D, U+001C..U+0020, U+0085, U+00A0\<close>
  "is_space c =
     (let n = (of_char c :: nat)
      in (9 \<le> n \<and> n \<le> 13) \<or> (28 \<le> n \<and> n \<le> 32) \<or> n = 133 \<or> n = 160)"

definition strip :: "string \<Rightarrow> string" where
  "strip s = rev (dropWhile is_space (rev (dropWhile is_space s)))"

fun str_contains :: "string \<Rightarrow> string \<Rightarrow> bool" where
  \<comment> \<open>\<open>sub in s\<close>\<close>
  "str_contains sub [] = (sub = [])"
| "str_contains sub (c # cs) = (prefix sub (c # cs) \<or> str_contains sub cs)"

fun join :: "string \<Rightarrow> string list \<Rightarrow> string" where
  \<comment> \<open>\<open>sep.join(xs)\<close>\<close>
  "join sep [] = []"
| "join sep [x] = x"
| "join sep (x # y # ys) = x @ sep @ join sep (y # ys)"

section \<open>Regular expressions of the catalog\<close>

text \<open>
  The signatures of the catalog use three metacharacters only: \<open>.\<close>, \<open>*\<close> and \<open>|\<close>.
  A pattern is compiled into alternatives, each a sequence of items; every other
  character is a literal. \<open>.\<close> matches any character but the line feed.
\<close>

datatype atom = Chr char | AnyChar

datatype item = One atom | Star atom

definition atom_of :: "char \<Rightarrow> atom" where
  "atom_of c = (if c = CHR ''.'' then AnyChar else Chr c)"

fun parse_seq :: "string \<Rightarrow> item list" where
  "parse_seq [] = []"
| "parse_seq [c] = [One (atom_of c)]"
| "parse_seq (c # d # cs) =
     (if d = CHR ''*'' then Star (atom_of c) # parse_seq cs
      else One (atom_of c) # parse_seq (d # cs))"

fun split_bar :: "string \<Rightarrow> string \<Rightarrow> string list" where
  "split_bar cur [] = [rev cur]"
| "split_bar cur (c # cs) =
     (if c = CHR ''|'' then rev cur # split_bar [] cs else split_bar (c # cur) cs)"

definition re_compile :: "string \<Rightarrow> item list list" where
  "re_compile p = map parse_seq (split_bar [] p)"

fun atom_ok :: "atom \<Rightarrow> char \<Rightarrow> bool" where
  "atom_ok (Chr a) c = (a = c)"
| "atom_ok AnyChar c = (c \<noteq> CHR 0x0A)"

fun match_here :: "item list \<Rightarrow> string \<Rightarrow> bool" where
  "match_here [] t = True"
| "match_here (One a # r) [] = False"
| "match_here (One a # r) (c # cs) = (atom_ok a c \<and> match_here r cs)"
| "match_here (Star a # r) [] = match_here r []"
| "match_here (Star a # r) (c # cs) =
     (match_here r (c # cs) \<or> (atom_ok a c \<and> match_here (Star a # r) cs))"

fun search_from :: "item list list \<Rightarrow> string \<Rightarrow> bool" where
  \<comment> \<open>a match of some alternative starting at some position of the text\<close>
  "search_from alts [] = list_ex (\<lambda>alt. match_here alt []) alts"
| "search_from alts (c # cs) =
     (list_ex (\<lambda>alt. match_here alt (c # cs)) alts \<or> search_from alts cs)"

definition re_search :: "string \<Rightarrow> string \<Rightarrow> bool" where
  \<comment> \<open>\<open>re.search(pattern, text)\<close> as a truth value\<close>
  "re_search pattern text = search_from (re_compile pattern) text"

section \<open>Context extraction\<close>

definition is_nl :: "char \<Rightarrow> bool" where
  "is_nl c = (c = CHR 0x0A \<or> c = CHR 0x0D)"

function re_split :: "string \<Rightarrow> string list" where
  \<comment> \<open>\<open>re.split(r'[\n\r]+', text)\<close>: the pieces between the maximal runs of separators\<close>
  "re_split text =
     takeWhile (\<lambda>c. \<not> is_nl c) text #
       (case dropWhile (\<lambda>c. \<not> is_nl c) text of
          [] \<Rightarrow> []
        | c # rest \<Rightarrow> re_split (dropWhile is_nl rest))"
  by pat_completeness auto
termination
proof (relation "measure length")
  show "wf (measure length)" by simp
next
  fix s :: string and c rest
  assume h: "dropWhile (\<lambda>c. \<not> is_nl c) s = c # rest"
  have "length (dropWhile is_nl rest) \<le> length rest"
    by (rule length_dropWhile_le)
  moreover have "length (c # rest) \<le> length s"
    using length_dropWhile_le [of "\<lambda>c. \<not> is_nl c" s] h by simp
  ultimately show "(dropWhile is_nl rest, s) \<in> measure length" by simp
qed

declare re_split.simps [simp del]

definition clean_lines :: "string \<Rightarrow> string list" where
  \<comment> \<open>\<open>[line.strip() for line in re.split(...) if line.strip()]\<close>\<close>
  "clean_lines text = map strip (filter (\<lambda>line. strip line \<noteq> []) (re_split text))"

definition fault_keywords :: "string list" where
  "fault_keywords = [''error'', ''exception'', ''failed'', ''fatal'', ''critical'', ''warning'']"

definition has_keyword :: "string \<Rightarrow> bool" where
  "has_keyword line = list_ex (\<lambda>keyword. str_contains keyword (lower line)) fault_keywords"

definition slice :: "'a list \<Rightarrow> int \<Rightarrow> int \<Rightarrow> 'a list" where
  \<comment> \<open>\<open>xs[start:end]\<close> for \<open>0 \<le> start\<close> and \<open>0 \<le> end\<close>\<close>
  "slice xs start end = drop (nat start) (take (nat end) xs)"

fun collect_context :: "string list \<Rightarrow> (nat \<times> string) list \<Rightarrow> string list \<Rightarrow> string list" where
  \<comment> \<open>the loop over \<open>enumerate(lines)\<close>, \<open>error_lines\<close> as accumulator\<close>
  "collect_context lines [] error_lines = error_lines"
| "collect_context lines ((i, line) # rest) error_lines =
     (if has_keyword line
      then let start = max 0 (int i - 2);
               end = min (int (length lines)) (int i + 3);
               context = slice lines start end
           in collect_context lines rest (error_lines @ context)
      else collect_context lines rest error_lines)"

definition extract_error_context :: "string \<Rightarrow> string list" where
  "extract_error_context text =
     (let lines = clean_lines text;
          error_lines = collect_context lines (enumerate 0 lines) []
      in if error_lines \<noteq> [] then error_lines else lines)"

section \<open>The pattern catalog\<close>

definition ERROR_PATTERNS :: "(string \<times> string) list" where
  \<comment> \<open>the dictionary in insertion order, which is its iteration order\<close>
  "ERROR_PATTERNS =
    [(''helm.*release.*failed'', ''Helm release installation or upgrade failed''),
     (''chart.*requires.*kubernetes.*version'', ''Kubernetes version compatibility issue''),
     (''failed.*to.*install.*chart'', ''Chart installation failure''),
     (''helm.*upgrade.*failed'', ''Helm upgrade failure''),
     (''chart.*not.*found'', ''Chart not found in repository''),
     (''kots.*install.*failed'', ''KOTS installation failure''),
     (''kots.*upgrade.*failed'', ''KOTS upgrade failure''),
     (''kots.*version.*incompatible'', ''KOTS version compatibility issue''),
     (''kots.*config.*invalid'', ''Invalid KOTS configuration''),
     (''kots.*license.*invalid'', ''Invalid or expired KOTS license''),
     (''image.*pull.*failed'', ''Container image pull failure''),
     (''pod.*crash.*loop'', ''Pod crash loop detected''),
     (''insufficient.*cpu|insufficient.*memory'', ''Resource constraints''),
     (''persistentvolumeclaim.*not.*found'', ''Storage/PVC issue''),
     (''service.*not.*found'', ''Service discovery issue''),
     (''configmap.*not.*found'', ''Configuration issue''),
     (''secret.*not.*found'', ''Secret/credential issue''),
     (''node.*not.*ready'', ''Node health issue''),
     (''network.*policy.*denied'', ''Network policy restriction''),
     (''rbac.*forbidden'', ''RBAC permission issue''),
     (''connection.*refused'', ''Network connectivity issue''),
     (''permission.*denied'', ''Access control or permissions issue''),
     (''timeout'', ''Resource exhaustion or network latency''),
     (''out of memory'', ''Resource exhaustion''),
     (''not found'', ''Missing resource or configuration''),
     (''already exists'', ''Resource conflict''),
     (''invalid.*format'', ''Data format or syntax error''),
     (''authentication.*failed'', ''Credentials or authentication issue''),
     (''dependency.*missing'', ''Missing dependency or package''),
     (''port.*in use'', ''Resource conflict - port already in use'')]"

fun identify_loop ::
  "(string \<times> string) list \<Rightarrow> string \<Rightarrow> (string \<times> string) list \<Rightarrow> (string \<times> string) list" where
  \<comment> \<open>the loop over the items of the catalog, \<open>matches\<close> as accumulator\<close>
  "identify_loop [] text matches = matches"
| "identify_loop ((pattern, cause) # rest) text matches =
     (if re_search pattern (lower text)
      then identify_loop rest text (matches @ [(pattern, cause)])
      else identify_loop rest text matches)"

definition identify_patterns :: "string \<Rightarrow> (string \<times> string) list" where
  "identify_patterns text = identify_loop ERROR_PATTERNS text []"

definition matched :: "string \<Rightarrow> string \<times> string \<Rightarrow> bool" where
  \<comment> \<open>the test of the loop, on a catalog entry\<close>
  "matched text entry = re_search (fst entry) (lower text)"

definition helm_group :: "(string \<times> string) list" where
  \<comment> \<open>the entries under the comment \<open>Helm specific errors\<close>\<close>
  "helm_group = take 5 ERROR_PATTERNS"

section \<open>Remediation steps\<close>

definition helm_steps :: "string list" where
  "helm_steps =
    [''Check Helm chart version compatibility'',
     ''Verify Helm repository access'',
     ''Review Helm values and configuration'',
     ''Check Kubernetes version requirements'']"

definition kots_steps :: "string list" where
  "kots_steps =
    [''Verify KOTS license validity'',
     ''Check KOTS version compatibility'',
     ''Review KOTS configuration'',
     ''Check application requirements'']"

definition kubernetes_steps :: "string list" where
  "kubernetes_steps =
    [''Check Kubernetes cluster health'',
     ''Verify resource availability'',
     ''Review pod and service status'',
     ''Check network policies'']"

definition network_steps :: "string list" where
  "network_steps =
    [''Check network connectivity'',
     ''Verify firewall settings'',
     ''Confirm service is running on the expected port'',
     ''Check network policies'']"

definition permission_steps :: "string list" where
  "permission_steps =
    [''Verify user permissions'',
     ''Check RBAC settings'',
     ''Review security contexts'',
     ''Check service account permissions'']"

definition resource_steps :: "string list" where
  "resource_steps =
    [''Check system resources (CPU, memory, disk)'',
     ''Review resource limits and quotas'',
     ''Consider scaling resources'',
     ''Check node capacity'']"

definition generic_steps :: "string list" where
  "generic_steps =
    [''Review the error context for more details'',
     ''Check system logs for related errors'',
     ''Verify configuration settings'',
     ''Check application status'']"

definition get_next_steps :: "string \<Rightarrow> string list" where
  "get_next_steps root_cause =
     (if str_contains ''helm'' (lower root_cause) then helm_steps
      else if str_contains ''kots'' (lower root_cause) then kots_steps
      else if str_contains ''kubernetes'' (lower root_cause) then kubernetes_steps
      else if str_contains ''network'' (lower root_cause) then network_steps
      else if str_contains ''permission'' (lower root_cause) then permission_steps
      else if str_contains ''resource'' (lower root_cause) then resource_steps
      else generic_steps)"

definition steps_table :: "(string \<times> string list) list" where
  \<comment> \<open>the lookup as the specification words it: keyword families in priority order\<close>
  "steps_table =
    [(''helm'', helm_steps), (''kots'', kots_steps), (''kubernetes'', kubernetes_steps),
     (''network'', network_steps), (''permission'', permission_steps),
     (''resource'', resource_steps)]"

definition steps_for_spec :: "string \<Rightarrow> string list" where
  \<comment> \<open>first keyword of the table occurring in the lowercased label wins, else the fallback\<close>
  "steps_for_spec label =
     (case find (\<lambda>(keyword, steps). str_contains keyword (lower label)) steps_table of
        Some (keyword, steps) \<Rightarrow> steps
      | None \<Rightarrow> generic_steps)"

section \<open>Single-source analysis\<close>

datatype error = ModelError
  \<comment> \<open>an exception raised by the tokenizer or by the forward pass of the model\<close>

record diagnosis =
  root_cause :: string
  confidence :: string
  next_steps :: "string list"
  diag_context :: string
  timestamp :: "string option"

definition mentions_helm_kots :: "string \<times> string \<Rightarrow> bool" where
  \<comment> \<open>\<open>any(x in m[1].lower() for x in ['helm', 'kots'])\<close>\<close>
  "mentions_helm_kots m = list_ex (\<lambda>x. str_contains x (lower (snd m))) [''helm'', ''kots'']"

definition resolve_root_cause :: "(string \<times> string) list \<Rightarrow> string" where
  "resolve_root_cause pattern_matches =
     (case pattern_matches of
        [] \<Rightarrow> ''Unknown issue''
      | first # _ \<Rightarrow>
          (case filter mentions_helm_kots pattern_matches of
             [] \<Rightarrow> snd first
           | m # _ \<Rightarrow> snd m))"

text \<open>
  The tokenizer, the forward pass of the model, the softmax and the formatting of a float
  are library code on floating point numbers: \<open>infer\<close> stands for the tokenizer and the
  forward pass (it may raise), \<open>fmt\<close> for softmax, maximum and the two-decimal formatting
  of the logits. An exception of \<open>infer\<close> is not caught in \<open>analyze_log\<close>.
\<close>

definition analyze_log ::
  "(string \<Rightarrow> error + 'l) \<Rightarrow> ('l \<Rightarrow> string) \<Rightarrow> string \<Rightarrow> error + diagnosis" where
  "analyze_log infer fmt text =
     (let error_context = extract_error_context text;
          context_text = join [CHR 0x0A] error_context;
          pattern_matches = identify_patterns text
      in case infer context_text of
           Inl e \<Rightarrow> Inl e
         | Inr logits \<Rightarrow>
             (let root_cause = resolve_root_cause pattern_matches;
                  next_steps = get_next_steps root_cause
              in Inr \<lparr>root_cause = root_cause, confidence = fmt logits,
                      next_steps = next_steps, diag_context = context_text,
                      timestamp = None\<rparr>))"

definition context_of :: "string \<Rightarrow> string" where
  \<comment> \<open>the string handed to the tokenizer and returned as context\<close>
  "context_of text = join [CHR 0x0A] (extract_error_context text)"

definition root_cause_spec :: "string \<Rightarrow> string" where
  \<comment> \<open>the resolution as the specification words it, over the catalog in its order\<close>
  "root_cause_spec text =
     (case find (\<lambda>entry. matched text entry \<and>
                   (str_contains ''helm'' (lower (snd entry)) \<or>
                    str_contains ''kots'' (lower (snd entry))))
             ERROR_PATTERNS of
        Some entry \<Rightarrow> snd entry
      | None \<Rightarrow>
          (case find (matched text) ERROR_PATTERNS of
             Some entry \<Rightarrow> snd entry
           | None \<Rightarrow> ''Unknown issue''))"

text \<open>Sample models, to run the analysis on concrete inputs.\<close>

definition failing_infer :: "string \<Rightarrow> error + nat" where
  "failing_infer context_text = Inl ModelError"

definition fixed_infer :: "nat \<Rightarrow> string \<Rightarrow> error + nat" where
  "fixed_infer logits context_text = Inr logits"

definition fixed_fmt :: "nat \<Rightarrow> string" where
  "fixed_fmt logits = (if logits = 0 then ''0.50'' else ''0.99'')"

section \<open>Multi-source aggregation\<close>

record log_file =
  filename :: string
  analysis :: diagnosis

record issue_record =
  issue_source :: string
  issue_file :: string
  issue :: string
  issue_confidence :: string
  issue_next_steps :: "string list"
  issue_context :: "string option"

record system_status =
  status :: string
  critical_issues_count :: nat
  warnings_count :: nat
  log_sources_available :: nat

record report =
  critical_issues :: "issue_record list"
  warnings :: "issue_record list"
  system_status :: system_status
  log_sources_analyzed :: "string list"
  report_timestamp :: string

datatype exc_detail = Detail string | Wrapped string http_error
  and http_error = HTTPException nat exc_detail

record agg_state =
  st_critical :: "issue_record list"
  st_warnings :: "issue_record list"
  st_sources :: "string list"

definition is_critical :: "string \<Rightarrow> bool" where
  \<comment> \<open>\<open>"error" in root_cause.lower() or "fail" in root_cause.lower()\<close>\<close>
  "is_critical rc = (str_contains ''error'' (lower rc) \<or> str_contains ''fail'' (lower rc))"

definition critical_issue :: "string \<Rightarrow> log_file \<Rightarrow> issue_record" where
  "critical_issue src log =
     \<lparr>issue_source = src, issue_file = filename log,
      issue = root_cause (analysis log), issue_confidence = confidence (analysis log),
      issue_next_steps = next_steps (analysis log),
      issue_context = Some (diag_context (analysis log))\<rparr>"

definition warning_issue :: "string \<Rightarrow> log_file \<Rightarrow> issue_record" where
  \<comment> \<open>a warning carries no context\<close>
  "warning_issue src log =
     \<lparr>issue_source = src, issue_file = filename log,
      issue = root_cause (analysis log), issue_confidence = confidence (analysis log),
      issue_next_steps = next_steps (analysis log),
      issue_context = None\<rparr>"

definition classify :: "string \<Rightarrow> log_file \<Rightarrow> agg_state \<Rightarrow> agg_state" where
  "classify src log st =
     (if is_critical (root_cause (analysis log))
      then st\<lparr>st_critical := st_critical st @ [critical_issue src log]\<rparr>
      else st\<lparr>st_warnings := st_warnings st @ [warning_issue src log]\<rparr>)"

fun classify_all :: "string \<Rightarrow> log_file list \<Rightarrow> agg_state \<Rightarrow> agg_state" where
  "classify_all src [] st = st"
| "classify_all src (log # rest) st = classify_all src rest (classify src log st)"

definition add_source :: "string \<Rightarrow> log_file list \<Rightarrow> agg_state \<Rightarrow> agg_state" where
  \<comment> \<open>\<open>if logs: analyzed_sources.append(src); for log in logs: ...\<close>\<close>
  "add_source src logs st =
     (if logs \<noteq> [] then classify_all src logs (st\<lparr>st_sources := st_sources st @ [src]\<rparr>)
      else st)"

definition build_report :: "agg_state \<Rightarrow> string \<Rightarrow> report" where
  "build_report st now =
     \<lparr>critical_issues = st_critical st,
      warnings = st_warnings st,
      system_status =
        \<lparr>status = (if st_critical st = [] then ''healthy'' else ''unhealthy''),
         critical_issues_count = length (st_critical st),
         warnings_count = length (st_warnings st),
         log_sources_available = length (st_sources st)\<rparr>,
      log_sources_analyzed = st_sources st,
      report_timestamp = now\<rparr>"

definition wrap_all :: "http_error \<Rightarrow> http_error" where
  \<comment> \<open>the outer handler: status 500, the message of the caught exception appended\<close>
  "wrap_all e = HTTPException 500 (Wrapped ''Error analyzing all logs: '' e)"

text \<open>
  The three per-source endpoints read the file system; their outcomes are the arguments:
  a list of analysed files or the exception raised, and for syslog one analysed file or
  the exception raised. \<open>now\<close> is the time stamp of the report.
\<close>

definition analyze_all_logs ::
  "http_error + log_file list \<Rightarrow> http_error + log_file list \<Rightarrow> http_error + log_file \<Rightarrow>
   string \<Rightarrow> http_error + report" where
  "analyze_all_logs embedded pods syslog now =
     (let st0 = \<lparr>st_critical = [], st_warnings = [], st_sources = []\<rparr>
      in case embedded of
           Inl e \<Rightarrow> Inl (wrap_all e)
         | Inr embedded_logs \<Rightarrow>
             (let st1 = add_source ''embedded-cluster'' embedded_logs st0
              in case pods of
                   Inl e \<Rightarrow> Inl (wrap_all e)
                 | Inr pod_logs \<Rightarrow>
                     (let st2 = add_source ''pods'' pod_logs st1;
                          st3 = (case syslog of
                                   Inl e \<Rightarrow> st2
                                 | Inr log \<Rightarrow>
                                     classify ''syslog'' log
                                       (st2\<lparr>st_sources := st_sources st2 @ [''syslog'']\<rparr>))
                      in Inr (build_report st3 now))))"

definition critical_log :: "log_file \<Rightarrow> bool" where
  "critical_log log = is_critical (root_cause (analysis log))"

definition syslog_files :: "http_error + log_file \<Rightarrow> log_file list" where
  \<comment> \<open>a syslog that could not be read contributes nothing\<close>
  "syslog_files syslog = (case syslog of Inl e \<Rightarrow> [] | Inr log \<Rightarrow> [log])"

definition final_state ::
  "log_file list \<Rightarrow> log_file list \<Rightarrow> http_error + log_file \<Rightarrow> agg_state" where
  \<comment> \<open>the three lists when the report is built\<close>
  "final_state embedded_logs pod_logs syslog =
     (let st2 = add_source ''pods'' pod_logs
                  (add_source ''embedded-cluster'' embedded_logs
                     \<lparr>st_critical = [], st_warnings = [], st_sources = []\<rparr>)
      in case syslog of
           Inl e \<Rightarrow> st2
         | Inr log \<Rightarrow> classify ''syslog'' log (st2\<lparr>st_sources := st_sources st2 @ [''syslog'']\<rparr>))"

definition sample_log :: "string \<Rightarrow> string \<Rightarrow> log_file" where
  \<comment> \<open>an analysed file with the given name and root cause\<close>
  "sample_log name cause =
     \<lparr>filename = name,
      analysis = \<lparr>root_cause = cause, confidence = ''0.50'',
                  next_steps = get_next_steps cause, diag_context = ''ctx'',
                  timestamp = Some ''2024-01-01T00:00:00''\<rparr>\<rparr>"

section \<open>Properties of the context extraction\<close>

lemma collect_context_no_keyword:
  "\<forall>e\<in>set es. \<not> has_keyword (snd e) \<Longrightarrow> collect_context lines es acc = acc"
  by (induction es arbitrary: acc) auto

lemma snd_set_enumerate: "snd ` set (enumerate n xs) = set xs"
  by (metis list.set_map map_snd_enumerate)

lemma filter_dropWhile_neg:
  "filter (\<lambda>c. \<not> Q c) (dropWhile Q xs) = filter (\<lambda>c. \<not> Q c) xs"
  by (induction xs) auto

text \<open>Splitting loses the separators and nothing else.\<close>

lemma concat_re_split: "concat (re_split t) = filter (\<lambda>c. \<not> is_nl c) t"
proof (induction t rule: re_split.induct)
  case (1 t)
  let ?P = "\<lambda>c. \<not> is_nl c"
  show ?case
  proof (cases "dropWhile ?P t")
    case Nil
    then have "\<forall>c\<in>set t. ?P c" by simp
    then have "takeWhile ?P t = t" "filter ?P t = t" by simp_all
    with Nil show ?thesis
      by (subst re_split.simps) (simp del: dropWhile_eq_Nil_conv)
  next
    case (Cons c rest)
    have nl: "is_nl c" using hd_dropWhile [of ?P t] Cons by simp
    have split: "t = takeWhile ?P t @ c # rest"
      using takeWhile_dropWhile_id [of ?P t] Cons by simp
    have "filter ?P t = filter ?P (takeWhile ?P t) @ filter ?P (c # rest)"
      by (subst split) simp
    also have "filter ?P (takeWhile ?P t) = takeWhile ?P t"
      by (auto simp: filter_id_conv dest: set_takeWhileD)
    also have "filter ?P (c # rest) = filter ?P (dropWhile is_nl rest)"
      using nl by (simp add: filter_dropWhile_neg)
    finally show ?thesis
      using "1.IH" [OF Cons] Cons by (subst re_split.simps) simp
  qed
qed

lemma strip_Nil_iff: "strip s = [] \<longleftrightarrow> (\<forall>c\<in>set s. is_space c)"
proof -
  have "strip s = [] \<longleftrightarrow> (\<forall>c\<in>set (dropWhile is_space s). is_space c)"
    by (simp add: strip_def)
  also have "\<dots> \<longleftrightarrow> dropWhile is_space s = []"
    using hd_dropWhile [of is_space s]
    by (cases "dropWhile is_space s") (auto dest: set_dropWhileD)
  also have "\<dots> \<longleftrightarrow> (\<forall>c\<in>set s. is_space c)" by simp
  finally show ?thesis .
qed

lemma is_nl_space: "is_nl c \<Longrightarrow> is_space c"
  by (auto simp: is_nl_def is_space_def)

lemma clean_lines_Nil_iff: "clean_lines t = [] \<longleftrightarrow> (\<forall>c\<in>set t. is_space c)"
proof -
  have "clean_lines t = [] \<longleftrightarrow> (\<forall>p\<in>set (re_split t). strip p = [])"
    by (simp add: clean_lines_def filter_empty_conv)
  also have "\<dots> \<longleftrightarrow> (\<forall>c\<in>set (concat (re_split t)). is_space c)"
    by (auto simp: strip_Nil_iff)
  also have "\<dots> \<longleftrightarrow> (\<forall>c\<in>set t. is_space c)"
    using is_nl_space by (auto simp: concat_re_split)
  finally show ?thesis .
qed

text \<open>
  C4: when no cleaned line (a piece between runs of line feed and carriage return,
  stripped, and kept only if not empty after stripping) contains one of the six fault
  keywords in its lowercased form, \<open>extract_error_context\<close> returns the cleaned lines
  themselves, all of them and in their order.
\<close>

theorem extract_error_context_no_fault:
  assumes "\<forall>line\<in>set (clean_lines text). \<not> has_keyword line"
  shows "extract_error_context text = clean_lines text"
proof -
  have "\<forall>e\<in>set (enumerate 0 (clean_lines text)). \<not> has_keyword (snd e)"
    using assms snd_set_enumerate [of 0 "clean_lines text"] by auto
  then have "collect_context (clean_lines text) (enumerate 0 (clean_lines text)) [] = []"
    by (rule collect_context_no_keyword)
  then show ?thesis by (simp add: extract_error_context_def)
qed

theorem extract_error_context_no_fault_witness:
  "extract_error_context (''INFO: pod myapp-123 started'' @ [CHR 0x0A, CHR 0x0D] @ ''  ready  '')
     = [''INFO: pod myapp-123 started'', ''ready'']"
proof -
  let ?t = "''INFO: pod myapp-123 started'' @ [CHR 0x0A, CHR 0x0D] @ ''  ready  ''"
  have c: "clean_lines ?t = [''INFO: pod myapp-123 started'', ''ready'']"
    by code_simp
  have h: "\<forall>line\<in>set (clean_lines ?t). \<not> has_keyword line"
    unfolding c by code_simp
  show ?thesis using extract_error_context_no_fault [OF h] c by simp
qed

text \<open>
  C5, as amended: \<open>extract_error_context\<close> returns no line exactly when every character of
  the input is white space (the empty input included); an input with one character that
  is not white space gives at least one line.
\<close>

theorem extract_error_context_empty_iff:
  "extract_error_context text = [] \<longleftrightarrow> (\<forall>c\<in>set text. is_space c)"
proof -
  have "extract_error_context text = [] \<longleftrightarrow> clean_lines text = []"
    by (auto simp: extract_error_context_def Let_def)
  then show ?thesis by (simp add: clean_lines_Nil_iff)
qed

theorem extract_error_context_empty_iff_witness:
  "extract_error_context ''pod started'' \<noteq> []"
proof -
  have h: "\<not> (\<forall>c\<in>set ''pod started''. is_space c)" by code_simp
  show ?thesis using extract_error_context_empty_iff [of "''pod started''"] h by blast
qed

text \<open>The claim as stated fails on an input that is a single line feed.\<close>

theorem extract_error_context_nonempty_counterexample:
  "[CHR 0x0A] \<noteq> ([] :: string) \<and> extract_error_context [CHR 0x0A] = []"
  by code_simp

section \<open>Properties of the pattern matcher\<close>

lemma identify_loop_filter:
  "identify_loop cat text acc = acc @ filter (matched text) cat"
  by (induction cat arbitrary: acc) (auto simp: matched_def)

lemma identify_patterns_filter:
  "identify_patterns text = filter (matched text) ERROR_PATTERNS"
  by (simp add: identify_patterns_def identify_loop_filter)

lemma distinct_catalog: "distinct (map fst ERROR_PATTERNS)"
  by code_simp

text \<open>
  C3: \<open>identify_patterns\<close> returns the entries of the catalog whose signature is found in
  the lowercased text, in the order of the catalog: the result is the catalog filtered,
  hence a subsequence of it, and no signature occurs twice in it.
\<close>

theorem identify_patterns_catalog_order:
  "identify_patterns text =
     filter (\<lambda>entry. re_search (fst entry) (lower text)) ERROR_PATTERNS
   \<and> subseq (identify_patterns text) ERROR_PATTERNS
   \<and> distinct (map fst (identify_patterns text))"
proof -
  have f: "identify_patterns text = filter (matched text) ERROR_PATTERNS"
    by (rule identify_patterns_filter)
  have "distinct (map fst (filter (matched text) ERROR_PATTERNS))"
    using distinct_catalog by (rule distinct_map_filter)
  with f show ?thesis by (simp add: matched_def [abs_def])
qed

text \<open>
  In the text below \<open>not found\<close> comes first and twice, \<open>timeout\<close> second and twice;
  the result has each entry once, \<open>timeout\<close> first as in the catalog.
\<close>

theorem identify_patterns_catalog_order_witness:
  "identify_patterns ''not found after TIMEOUT; timeout; not found'' =
     [(''timeout'', ''Resource exhaustion or network latency''),
      (''not found'', ''Missing resource or configuration'')]"
proof -
  have "filter (\<lambda>entry. re_search (fst entry)
                  (lower ''not found after TIMEOUT; timeout; not found'')) ERROR_PATTERNS
     = [(''timeout'', ''Resource exhaustion or network latency''),
        (''not found'', ''Missing resource or configuration'')]"
    by code_simp
  then show ?thesis
    using identify_patterns_catalog_order [of "''not found after TIMEOUT; timeout; not found''"]
    by simp
qed

section \<open>Properties of the remediation steps\<close>

text \<open>
  C6: \<open>get_next_steps\<close> returns four strings, and they are the steps of the first of
  \<open>helm\<close>, \<open>kots\<close>, \<open>kubernetes\<close>, \<open>network\<close>, \<open>permission\<close>, \<open>resource\<close> that occurs in
  the lowercased label, the generic steps when none occurs.
\<close>

theorem get_next_steps_first_keyword:
  "get_next_steps label = steps_for_spec label \<and> length (get_next_steps label) = 4"
  by (simp add: get_next_steps_def steps_for_spec_def steps_table_def helm_steps_def
      kots_steps_def kubernetes_steps_def network_steps_def permission_steps_def
      resource_steps_def generic_steps_def)

theorem get_next_steps_first_keyword_witness:
  "get_next_steps ''KOTS and Helm network resource issue'' = helm_steps
   \<and> steps_for_spec ''KOTS and Helm network resource issue'' = helm_steps"
proof -
  have "get_next_steps ''KOTS and Helm network resource issue'' = helm_steps"
    by code_simp
  then show ?thesis
    using get_next_steps_first_keyword [of "''KOTS and Helm network resource issue''"]
    by simp
qed

section \<open>Properties of the single-source analysis\<close>

lemma find_filter_case:
  "find P xs = (case filter P xs of [] \<Rightarrow> None | x # _ \<Rightarrow> Some x)"
  by (induction xs) auto

lemma find_filter_conj: "find P (filter Q xs) = find (\<lambda>x. Q x \<and> P x) xs"
  by (induction xs) auto

lemma mentions_helm_kots_iff:
  "mentions_helm_kots m \<longleftrightarrow>
     str_contains ''helm'' (lower (snd m)) \<or> str_contains ''kots'' (lower (snd m))"
  by (simp add: mentions_helm_kots_def)

lemma resolve_root_cause_find:
  "resolve_root_cause ms =
     (case find mentions_helm_kots ms of
        Some entry \<Rightarrow> snd entry
      | None \<Rightarrow> (case ms of [] \<Rightarrow> ''Unknown issue'' | first # _ \<Rightarrow> snd first))"
proof (cases ms)
  case Nil
  then show ?thesis by (simp add: resolve_root_cause_def)
next
  case (Cons first rest)
  show ?thesis
    unfolding resolve_root_cause_def find_filter_case [of mentions_helm_kots ms]
    by (simp add: Cons split: list.splits)
qed

lemma resolve_root_cause_spec:
  "resolve_root_cause (identify_patterns text) = root_cause_spec text"
proof -
  let ?ms = "filter (matched text) ERROR_PATTERNS"
  have hk: "find mentions_helm_kots ?ms =
      find (\<lambda>entry. matched text entry \<and>
                   (str_contains ''helm'' (lower (snd entry)) \<or>
                    str_contains ''kots'' (lower (snd entry)))) ERROR_PATTERNS"
    by (simp add: find_filter_conj mentions_helm_kots_iff [abs_def])
  have first: "(case ?ms of [] \<Rightarrow> ''Unknown issue'' | first # _ \<Rightarrow> snd first) =
      (case find (matched text) ERROR_PATTERNS of
         Some entry \<Rightarrow> snd entry | None \<Rightarrow> ''Unknown issue'')"
    by (simp add: find_filter_case [of "matched text"] split: list.splits)
  show ?thesis
    unfolding identify_patterns_filter resolve_root_cause_find hk first root_cause_spec_def ..
qed

lemma analyze_log_Inr:
  "infer (context_of text) = Inr logits \<Longrightarrow>
   analyze_log infer fmt text =
     Inr \<lparr>root_cause = resolve_root_cause (identify_patterns text), confidence = fmt logits,
          next_steps = get_next_steps (resolve_root_cause (identify_patterns text)),
          diag_context = context_of text, timestamp = None\<rparr>"
  by (simp add: analyze_log_def context_of_def Let_def)

lemma analyze_log_Inl:
  "infer (context_of text) = Inl e \<Longrightarrow> analyze_log infer fmt text = Inl e"
  by (simp add: analyze_log_def context_of_def Let_def)

lemma analyze_log_cases:
  assumes "analyze_log infer fmt text = Inr d"
  obtains logits where "infer (context_of text) = Inr logits"
proof (cases "infer (context_of text)")
  case (Inl e)
  then show ?thesis using assms analyze_log_Inl [of infer "text" e fmt] by simp
next
  case (Inr l)
  then show ?thesis using that by simp
qed

text \<open>
  C1: when the inference returns, \<open>analyze_log\<close> returns a diagnosis whose root cause is
  the label of the first catalog entry that matched and whose lowercased label contains
  \<open>helm\<close> or \<open>kots\<close>; without such an entry, the label of the first catalog entry that
  matched; without any match, \<open>Unknown issue\<close>.
\<close>

theorem analyze_log_root_cause:
  assumes "infer (context_of text) = Inr logits"
  shows "\<exists>d. analyze_log infer fmt text = Inr d \<and> root_cause d = root_cause_spec text"
  using analyze_log_Inr [of infer "text" logits fmt] assms
  by (simp add: resolve_root_cause_spec)

text \<open>
  Both \<open>helm.*release.*failed\<close> and \<open>failed.*to.*install.*chart\<close> match; the label of the
  first mentions Helm.
\<close>

theorem analyze_log_root_cause_witness:
  "\<exists>d. analyze_log (fixed_infer 1) fixed_fmt
          ''Error: helm release failed to install chart myapp'' = Inr d
     \<and> root_cause d = ''Helm release installation or upgrade failed''"
proof -
  let ?t = "''Error: helm release failed to install chart myapp''"
  have h: "fixed_infer 1 (context_of ?t) = Inr 1" by (simp add: fixed_infer_def)
  have r: "root_cause_spec ?t = ''Helm release installation or upgrade failed''"
    by code_simp
  show ?thesis
    using analyze_log_root_cause [of "fixed_infer 1" ?t 1 fixed_fmt] h r by simp
qed

text \<open>
  C2, as amended: an exception of the inference step is the outcome of \<open>analyze_log\<close>;
  no diagnosis is returned and no confidence is substituted.
\<close>

theorem analyze_log_inference_failure:
  assumes "infer (context_of text) = Inl e"
  shows "analyze_log infer fmt text = Inl e"
  using assms by (rule analyze_log_Inl)

theorem analyze_log_inference_failure_witness:
  "analyze_log failing_infer fixed_fmt ''rbac forbidden'' = Inl ModelError"
proof -
  have h: "failing_infer (context_of ''rbac forbidden'') = Inl ModelError"
    by (simp add: failing_infer_def)
  show ?thesis
    using analyze_log_inference_failure [of failing_infer "''rbac forbidden''" ModelError fixed_fmt] h
    by simp
qed

text \<open>The claim as stated fails: with a model that raises, no diagnosis comes back.\<close>

theorem analyze_log_sentinel_counterexample:
  "failing_infer (context_of ''connection timeout'') = Inl ModelError
   \<and> analyze_log failing_infer fixed_fmt ''connection timeout'' = Inl ModelError"
  by code_simp

text \<open>
  C9: two runs of \<open>analyze_log\<close> on one text that both return, whatever the two models
  and their formatting, give the same root cause, next steps and context; the second
  diagnosis is the first with its confidence replaced.
\<close>

theorem analyze_log_model_independent:
  assumes "analyze_log infer1 fmt1 text = Inr d1"
    and "analyze_log infer2 fmt2 text = Inr d2"
  shows "root_cause d1 = root_cause d2 \<and> next_steps d1 = next_steps d2
    \<and> diag_context d1 = diag_context d2
    \<and> d2 = d1\<lparr>confidence := confidence d2\<rparr>"
proof -
  obtain l1 where l1: "infer1 (context_of text) = Inr l1"
    using assms(1) by (rule analyze_log_cases)
  obtain l2 where l2: "infer2 (context_of text) = Inr l2"
    using assms(2) by (rule analyze_log_cases)
  show ?thesis
    using assms l1 l2 analyze_log_Inr [of infer1 "text" l1 fmt1]
      analyze_log_Inr [of infer2 "text" l2 fmt2]
    by auto
qed

theorem analyze_log_model_independent_witness:
  "\<exists>d1 d2. analyze_log (fixed_infer 0) fixed_fmt ''kots upgrade failed'' = Inr d1
     \<and> analyze_log (fixed_infer 1) fixed_fmt ''kots upgrade failed'' = Inr d2
     \<and> confidence d1 \<noteq> confidence d2
     \<and> root_cause d1 = root_cause d2 \<and> next_steps d1 = next_steps d2
     \<and> diag_context d1 = diag_context d2"
proof -
  let ?d = "\<lambda>c. \<lparr>root_cause = ''KOTS upgrade failure'', confidence = c,
                  next_steps = kots_steps, diag_context = ''kots upgrade failed'',
                  timestamp = None\<rparr>"
  have a: "analyze_log (fixed_infer 0) fixed_fmt ''kots upgrade failed'' = Inr (?d ''0.50'')"
    by code_simp
  have b: "analyze_log (fixed_infer 1) fixed_fmt ''kots upgrade failed'' = Inr (?d ''0.99'')"
    by code_simp
  show ?thesis using analyze_log_model_independent [OF a b] a b by simp
qed

section \<open>Labels of the Helm group without a domain keyword\<close>

lemma helm_group_plain:
  assumes "m \<in> set helm_group" and "\<not> mentions_helm_kots m"
  shows "snd m = ''Kubernetes version compatibility issue''
         \<or> snd m = ''Chart installation failure''
         \<or> snd m = ''Chart not found in repository''"
proof -
  have hk1: "mentions_helm_kots
      (''helm.*release.*failed'', ''Helm release installation or upgrade failed'')"
    by code_simp
  have hk4: "mentions_helm_kots (''helm.*upgrade.*failed'', ''Helm upgrade failure'')"
    by code_simp
  have hg: "helm_group =
    [(''helm.*release.*failed'', ''Helm release installation or upgrade failed''),
     (''chart.*requires.*kubernetes.*version'', ''Kubernetes version compatibility issue''),
     (''failed.*to.*install.*chart'', ''Chart installation failure''),
     (''helm.*upgrade.*failed'', ''Helm upgrade failure''),
     (''chart.*not.*found'', ''Chart not found in repository'')]"
    by (simp add: helm_group_def ERROR_PATTERNS_def)
  have "m \<in> set helm_group" by (rule assms(1))
  then show ?thesis using assms(2) hk1 hk4 unfolding hg by auto
qed

lemma steps_kubernetes_label:
  "get_next_steps ''Kubernetes version compatibility issue'' = kubernetes_steps"
  by code_simp

lemma steps_chart_install_label:
  "get_next_steps ''Chart installation failure'' = generic_steps"
  by code_simp

lemma steps_chart_not_found_label:
  "get_next_steps ''Chart not found in repository'' = generic_steps"
  by code_simp

lemma steps_differ:
  "kubernetes_steps \<noteq> helm_steps" "generic_steps \<noteq> helm_steps"
  by (simp_all add: kubernetes_steps_def helm_steps_def generic_steps_def)

text \<open>
  C10, as amended: when every match of the text is an entry of the Helm group whose label
  contains neither \<open>helm\<close> nor \<open>kots\<close>, and there is a match, the root cause is the label
  of the first match (no override), and the next steps follow from that label alone:
  never the Helm steps; the cluster-health steps for the label
  \<open>Kubernetes version compatibility issue\<close>, which contains \<open>kubernetes\<close>, and the
  generic steps for the other two labels.
\<close>

theorem helm_group_label_only:
  assumes ne: "identify_patterns text \<noteq> []"
    and grp: "\<forall>m\<in>set (identify_patterns text). m \<in> set helm_group \<and> \<not> mentions_helm_kots m"
    and ret: "analyze_log infer fmt text = Inr d"
  shows "root_cause d = snd (hd (identify_patterns text))
     \<and> next_steps d \<noteq> helm_steps
     \<and> next_steps d = (if root_cause d = ''Kubernetes version compatibility issue''
                       then kubernetes_steps else generic_steps)"
proof -
  obtain first rest where ms: "identify_patterns text = first # rest"
    using ne by (cases "identify_patterns text") auto
  have "filter mentions_helm_kots (identify_patterns text) = []"
    using grp by (simp add: filter_empty_conv)
  then have rc: "resolve_root_cause (identify_patterns text) = snd first"
    by (simp add: resolve_root_cause_def ms)
  obtain l where l: "infer (context_of text) = Inr l"
    using ret by (rule analyze_log_cases)
  have d: "root_cause d = snd first" "next_steps d = get_next_steps (snd first)"
    using ret l analyze_log_Inr [of infer "text" l fmt] rc by auto
  have "first \<in> set helm_group" "\<not> mentions_helm_kots first"
    using grp ms by auto
  then have "snd first = ''Kubernetes version compatibility issue''
         \<or> snd first = ''Chart installation failure''
         \<or> snd first = ''Chart not found in repository''"
    by (rule helm_group_plain)
  then show ?thesis
    using d ms steps_kubernetes_label steps_chart_install_label steps_chart_not_found_label
      steps_differ
    by auto
qed

theorem helm_group_label_only_witness:
  "\<exists>d. analyze_log (fixed_infer 1) fixed_fmt ''chart notfound'' = Inr d \<and>
     root_cause d = ''Chart not found in repository'' \<and> next_steps d = generic_steps"
proof -
  let ?t = "''chart notfound''"
  have ms: "identify_patterns ?t = [(''chart.*not.*found'', ''Chart not found in repository'')]"
    by code_simp
  have ne: "identify_patterns ?t \<noteq> []" using ms by simp
  have g: "(''chart.*not.*found'', ''Chart not found in repository'') \<in> set helm_group"
    by code_simp
  have k: "\<not> mentions_helm_kots (''chart.*not.*found'', ''Chart not found in repository'')"
    by code_simp
  have grp: "\<forall>m\<in>set (identify_patterns ?t). m \<in> set helm_group \<and> \<not> mentions_helm_kots m"
    using g k by (simp add: ms)
  have ret: "analyze_log (fixed_infer 1) fixed_fmt ?t =
     Inr \<lparr>root_cause = ''Chart not found in repository'', confidence = ''0.99'',
          next_steps = generic_steps, diag_context = ''chart notfound'',
          timestamp = None\<rparr>"
    by code_simp
  show ?thesis using helm_group_label_only [OF ne grp ret] ret by simp
qed

text \<open>
  The claim as stated fails on a text whose only match is the second entry of the Helm
  group: the next steps are the cluster-health steps, not the generic ones.
\<close>

theorem helm_group_generic_counterexample:
  "identify_patterns ''chart requires kubernetes version'' =
      [(''chart.*requires.*kubernetes.*version'', ''Kubernetes version compatibility issue'')]
   \<and> (''chart.*requires.*kubernetes.*version'', ''Kubernetes version compatibility issue'')
        \<in> set helm_group
   \<and> \<not> mentions_helm_kots
        (''chart.*requires.*kubernetes.*version'', ''Kubernetes version compatibility issue'')
   \<and> analyze_log (fixed_infer 1) fixed_fmt ''chart requires kubernetes version'' =
       Inr \<lparr>root_cause = ''Kubernetes version compatibility issue'', confidence = ''0.99'',
            next_steps = kubernetes_steps,
            diag_context = ''chart requires kubernetes version'', timestamp = None\<rparr>
   \<and> kubernetes_steps \<noteq> generic_steps"
  by code_simp

section \<open>Properties of the aggregation\<close>

lemma classify_all_critical:
  "st_critical (classify_all src logs st) =
     st_critical st @ map (critical_issue src) (filter critical_log logs)"
  by (induction logs arbitrary: st) (auto simp: classify_def critical_log_def)

lemma classify_all_warnings:
  "st_warnings (classify_all src logs st) =
     st_warnings st @ map (warning_issue src) (filter (\<lambda>log. \<not> critical_log log) logs)"
  by (induction logs arbitrary: st) (auto simp: classify_def critical_log_def)

lemma add_source_critical:
  "st_critical (add_source src logs st) =
     st_critical st @ map (critical_issue src) (filter critical_log logs)"
  by (simp add: add_source_def classify_all_critical)

lemma add_source_warnings:
  "st_warnings (add_source src logs st) =
     st_warnings st @ map (warning_issue src) (filter (\<lambda>log. \<not> critical_log log) logs)"
  by (simp add: add_source_def classify_all_warnings)

lemma analyze_all_logs_Inr:
  assumes "analyze_all_logs embedded pods syslog now = Inr r"
  obtains embedded_logs pod_logs where
    "embedded = Inr embedded_logs" "pods = Inr pod_logs"
    "r = build_report (final_state embedded_logs pod_logs syslog) now"
  using assms
  by (auto simp: analyze_all_logs_def final_state_def Let_def split: sum.splits)

lemma final_state_critical:
  "st_critical (final_state el pl syslog) =
     map (critical_issue ''embedded-cluster'') (filter critical_log el) @
     map (critical_issue ''pods'') (filter critical_log pl) @
     map (critical_issue ''syslog'') (filter critical_log (syslog_files syslog))"
  by (cases syslog)
     (simp_all add: final_state_def Let_def syslog_files_def add_source_critical
        classify_def critical_log_def)

lemma final_state_warnings:
  "st_warnings (final_state el pl syslog) =
     map (warning_issue ''embedded-cluster'') (filter (\<lambda>log. \<not> critical_log log) el) @
     map (warning_issue ''pods'') (filter (\<lambda>log. \<not> critical_log log) pl) @
     map (warning_issue ''syslog'') (filter (\<lambda>log. \<not> critical_log log) (syslog_files syslog))"
  by (cases syslog)
     (simp_all add: final_state_def Let_def syslog_files_def add_source_warnings
        classify_def critical_log_def)

lemma unknown_issue_not_critical: "\<not> is_critical ''Unknown issue''"
  by code_simp

text \<open>
  C7: in a report that \<open>analyze_all_logs\<close> returns, the critical issues are the analysed
  files whose root cause contains \<open>error\<close> or \<open>fail\<close> in its lowercased form, the warnings
  are all the others, each list in the order embedded-cluster, pods, syslog; a file whose
  root cause is \<open>Unknown issue\<close> is not critical, hence a warning.
\<close>

theorem analyze_all_logs_classification:
  assumes "analyze_all_logs embedded pods syslog now = Inr r"
  shows "\<exists>el pl. embedded = Inr el \<and> pods = Inr pl
     \<and> critical_issues r =
         map (critical_issue ''embedded-cluster'') (filter critical_log el) @
         map (critical_issue ''pods'') (filter critical_log pl) @
         map (critical_issue ''syslog'') (filter critical_log (syslog_files syslog))
     \<and> warnings r =
         map (warning_issue ''embedded-cluster'') (filter (\<lambda>log. \<not> critical_log log) el) @
         map (warning_issue ''pods'') (filter (\<lambda>log. \<not> critical_log log) pl) @
         map (warning_issue ''syslog'')
           (filter (\<lambda>log. \<not> critical_log log) (syslog_files syslog))
     \<and> (\<forall>log. critical_log log \<longleftrightarrow>
            str_contains ''error'' (lower (root_cause (analysis log)))
            \<or> str_contains ''fail'' (lower (root_cause (analysis log))))
     \<and> (\<forall>log. root_cause (analysis log) = ''Unknown issue'' \<longrightarrow> \<not> critical_log log)"
proof -
  obtain el pl where e: "embedded = Inr el" "pods = Inr pl"
    and r: "r = build_report (final_state el pl syslog) now"
    using assms by (rule analyze_all_logs_Inr)
  have c: "critical_issues r = st_critical (final_state el pl syslog)"
    and w: "warnings r = st_warnings (final_state el pl syslog)"
    by (simp_all add: r build_report_def)
  show ?thesis
    using e unknown_issue_not_critical
    by (simp add: c w final_state_critical final_state_warnings critical_log_def is_critical_def)
qed

theorem analyze_all_logs_classification_witness:
  "\<exists>r. analyze_all_logs
          (Inr [sample_log ''a.log'' ''Unknown issue'',
                sample_log ''b.log'' ''Helm upgrade failure''])
          (Inr [sample_log ''c.log'' ''Node health issue''])
          (Inr (sample_log ''syslog'' ''Data format or syntax error''))
          ''2024-01-02T00:00:00'' = Inr r
     \<and> map issue (critical_issues r) =
          [''Helm upgrade failure'', ''Data format or syntax error'']
     \<and> map issue (warnings r) = [''Unknown issue'', ''Node health issue'']"
proof -
  let ?a = "sample_log ''a.log'' ''Unknown issue''"
  let ?b = "sample_log ''b.log'' ''Helm upgrade failure''"
  let ?c = "sample_log ''c.log'' ''Node health issue''"
  let ?s = "sample_log ''syslog'' ''Data format or syntax error''"
  obtain r where a: "analyze_all_logs (Inr [?a, ?b]) (Inr [?c]) (Inr ?s)
      ''2024-01-02T00:00:00'' = Inr r"
    by (simp add: analyze_all_logs_def Let_def)
  have k: "\<not> critical_log ?a" "critical_log ?b" "\<not> critical_log ?c" "critical_log ?s"
    by code_simp+
  have i: "issue (warning_issue src (sample_log n cause)) = cause"
    "issue (critical_issue src (sample_log n cause)) = cause" for src n cause
    by (simp_all add: warning_issue_def critical_issue_def sample_log_def)
  show ?thesis
    using analyze_all_logs_classification [OF a] a k
    by (auto simp: syslog_files_def i)
qed

text \<open>
  C8: in a report that \<open>analyze_all_logs\<close> returns, the status is \<open>unhealthy\<close> exactly when
  there is a critical issue and \<open>healthy\<close> exactly when there is none, the two counts are
  the lengths of the two lists, and the number of available sources is the number of
  analysed sources.
\<close>

theorem analyze_all_logs_status:
  assumes "analyze_all_logs embedded pods syslog now = Inr r"
  shows "(status (system_status r) = ''unhealthy'' \<longleftrightarrow> critical_issues r \<noteq> [])
     \<and> (status (system_status r) = ''healthy'' \<longleftrightarrow> critical_issues r = [])
     \<and> critical_issues_count (system_status r) = length (critical_issues r)
     \<and> warnings_count (system_status r) = length (warnings r)
     \<and> log_sources_available (system_status r) = length (log_sources_analyzed r)"
proof -
  obtain el pl where r: "r = build_report (final_state el pl syslog) now"
    using assms by (rule analyze_all_logs_Inr)
  show ?thesis by (simp add: r build_report_def)
qed

theorem analyze_all_logs_status_witness:
  "\<exists>r. analyze_all_logs
          (Inr [sample_log ''a.log'' ''Unknown issue''])
          (Inr [])
          (Inl (HTTPException 500 (Detail ''Error analyzing syslog'')))
          ''2024-01-02T00:00:00'' = Inr r
     \<and> status (system_status r) = ''healthy''
     \<and> critical_issues r = []
     \<and> warnings_count (system_status r) = 1
     \<and> log_sources_analyzed r = [''embedded-cluster'']
     \<and> log_sources_available (system_status r) = 1"
proof -
  let ?a = "sample_log ''a.log'' ''Unknown issue''"
  let ?r = "build_report
      \<lparr>st_critical = [], st_warnings = [warning_issue ''embedded-cluster'' ?a],
       st_sources = [''embedded-cluster'']\<rparr> ''2024-01-02T00:00:00''"
  have k: "\<not> is_critical (root_cause (analysis ?a))" by code_simp
  have a: "analyze_all_logs (Inr [?a]) (Inr [])
      (Inl (HTTPException 500 (Detail ''Error analyzing syslog'')))
      ''2024-01-02T00:00:00'' = Inr ?r"
    using k by (simp add: analyze_all_logs_def Let_def add_source_def classify_def)
  show ?thesis
    using analyze_all_logs_status [OF a] a by (simp add: build_report_def)
qed

end
